theory Spec2Isabelle
  imports Complex_Main "HOL-Library.Word" "HOL-Library.Sublist"
begin

unbundle bit_operations_syntax

section \<open>Opaque identifiers (detail/TranslationTypes.hh, class OpaqueId)\<close>

text \<open>
  \<^verbatim>\<open>OpaqueId<ValueT, SizeT>\<close> wraps one private member \<^verbatim>\<open>size_type value_\<close>
  (here \<open>stored_value\<close>) of the unsigned type \<^verbatim>\<open>SizeT\<close>.  The width of
  \<^verbatim>\<open>SizeT\<close> is the type parameter \<open>'w\<close>; arithmetic on \<open>'w word\<close> wraps modulo
  \<open>2 ^ LENGTH('w)\<close> as unsigned arithmetic does in C++.  The explicit constructor
  \<^verbatim>\<open>OpaqueId(size_type index)\<close> is the datatype constructor; \<^verbatim>\<open>operator bool\<close>
  is \<open>operator_bool\<close>; post-increment returns the copy \<^verbatim>\<open>old\<close> beside the
  incremented object.
\<close>

datatype 'size_t OpaqueId = OpaqueId (stored_value: 'size_t)

definition invalid_value :: "'w::len word" where
  "invalid_value = - 1"

definition OpaqueId_default :: "'w::len word OpaqueId" where
  "OpaqueId_default = OpaqueId invalid_value"

definition operator_bool :: "'w::len word OpaqueId \<Rightarrow> bool" where
  "operator_bool x \<longleftrightarrow> stored_value x \<noteq> invalid_value"

definition pre_increment :: "'w::len word OpaqueId \<Rightarrow> 'w word OpaqueId" where
  "pre_increment x = OpaqueId (stored_value x + 1)"

definition post_increment :: "'w::len word OpaqueId \<Rightarrow> 'w word OpaqueId \<times> 'w word OpaqueId" where
  "post_increment x = (let old = x in (old, pre_increment x))"

definition get :: "'w::len word OpaqueId \<Rightarrow> 'w word" where
  "get x = stored_value x"

definition unchecked_get :: "'w::len word OpaqueId \<Rightarrow> 'w word" where
  "unchecked_get x = stored_value x"

section \<open>Conversion facade (G4VG.hh, G4VG.cc)\<close>

text \<open>
  Pointers (\<^verbatim>\<open>G4LogicalVolume const*\<close>, \<^verbatim>\<open>vecgeom::VPlacedVolume*\<close>) are addresses;
  \<^verbatim>\<open>nullptr\<close> is address \<open>0\<close>.
\<close>

type_synonym pointer = nat

text \<open>
  \<^verbatim>\<open>struct Options\<close> with its default member initialisers; \<^verbatim>\<open>Options{}\<close> is
  \<open>Options_default\<close>.  The static constant \<^verbatim>\<open>scale\<close> is not a member of a value.
\<close>

record Options =
  verbose :: bool
  compare_volumes :: bool

definition Options_default :: Options where
  "Options_default = \<lparr>verbose = False, compare_volumes = False\<rparr>"

definition Options_scale :: real where
  "Options_scale = 1"

text \<open>
  \<^verbatim>\<open>struct Converted\<close>: the world pointer and the map
  \<^verbatim>\<open>std::unordered_map<G4LogicalVolume const*, unsigned int>\<close>.  An \<^verbatim>\<open>unsigned int\<close> is
  a 32-bit word.
\<close>

record Converted =
  world :: pointer
  volumes :: "pointer \<rightharpoonup> 32 word"

text \<open>
  The external \<^verbatim>\<open>celeritas::g4vg::Converter\<close> (header \<^verbatim>\<open>geocel/g4vg/Converter.hh\<close>,
  not part of these sources) is a parameter of the facade: a function from its options
  and the world to either the exception it throws or its result.  The result holds the
  destination world pointer and an unordered map from logical volumes to identifiers,
  given here as the list of its entries in iteration order.  The identifier's size type
  is the type parameter \<open>'w\<close>.
\<close>

record Converter_Options =
  geocel_verbose :: bool
  geocel_compare_volumes :: bool

record 'id Converter_result =
  result_world :: pointer
  result_volumes :: "(pointer \<times> 'id OpaqueId) list"

type_synonym ('e, 'pv, 'id) Converter =
  "Converter_Options \<Rightarrow> 'pv \<Rightarrow> 'e + 'id Converter_result"

text \<open>
  \<^verbatim>\<open>std::unordered_map::insert\<close> leaves the map unchanged when the key is present.
\<close>

definition umap_insert :: "'k \<Rightarrow> 'v \<Rightarrow> ('k \<rightharpoonup> 'v) \<Rightarrow> ('k \<rightharpoonup> 'v)" where
  "umap_insert k v m = (case m k of None \<Rightarrow> m(k \<mapsto> v) | Some _ \<Rightarrow> m)"

text \<open>
  The loop \<^verbatim>\<open>for (auto&& [lv, vid] : geocel_result.volumes)\<close> of \<^verbatim>\<open>convert\<close>.  The
  inserted value \<^verbatim>\<open>vid.unchecked_get()\<close> of type \<^verbatim>\<open>size_type\<close> is converted to the
  mapped type \<^verbatim>\<open>unsigned int\<close>: \<open>ucast\<close> keeps the low 32 bits.
\<close>

fun remap_volumes ::
  "(pointer \<times> 'w::len word OpaqueId) list \<Rightarrow> (pointer \<rightharpoonup> 32 word) \<Rightarrow> (pointer \<rightharpoonup> 32 word)"
where
  "remap_volumes [] converted_volumes = converted_volumes"
| "remap_volumes ((lv, vid) # rest) converted_volumes =
     remap_volumes rest (umap_insert lv (ucast (unchecked_get vid)) converted_volumes)"

definition make_geocel_opts :: "Options \<Rightarrow> Converter_Options" where
  "make_geocel_opts options =
     \<lparr>geocel_verbose = verbose options, geocel_compare_volumes = compare_volumes options\<rparr>"

text \<open>\<^verbatim>\<open>Converted convert(G4VPhysicalVolume const* world, Options options)\<close>.\<close>

definition convert ::
  "('e, 'pv, 'w::len word) Converter \<Rightarrow> 'pv \<Rightarrow> Options \<Rightarrow> 'e + Converted"
where
  "convert converter world_in options =
     (case converter (make_geocel_opts options) world_in of
        Inl exception \<Rightarrow> Inl exception
      | Inr geocel_result \<Rightarrow>
          Inr \<lparr>world = result_world geocel_result,
               volumes = remap_volumes (result_volumes geocel_result) Map.empty\<rparr>)"

text \<open>\<^verbatim>\<open>Converted convert(G4VPhysicalVolume const* world)\<close>: \<^verbatim>\<open>return convert(world, {})\<close>.\<close>

definition convert_world ::
  "('e, 'pv, 'w::len word) Converter \<Rightarrow> 'pv \<Rightarrow> 'e + Converted"
where
  "convert_world converter world_in = convert converter world_in Options_default"

section \<open>Structured runtime error (detail/TranslationTypes.hh)\<close>

text \<open>\<^verbatim>\<open>struct RuntimeErrorDetails\<close>; the member \<^verbatim>\<open>file\<close> is \<open>source_file\<close> here.\<close>

record RuntimeErrorDetails =
  which :: string
  what :: string
  condition :: string
  source_file :: string
  line :: int

text \<open>\<^verbatim>\<open>color_code\<close> returns the empty string for every abbreviation.\<close>

definition color_code :: "char \<Rightarrow> string" where
  "color_code abbrev = []"

text \<open>
  \<^verbatim>\<open>std::ostream << int\<close>: the decimal digits, with a leading minus sign for a
  negative number.
\<close>

definition digit_char :: "nat \<Rightarrow> char" where
  "digit_char n = ''0123456789'' ! n"

fun string_of_nat :: "nat \<Rightarrow> string" where
  "string_of_nat n =
     (if n < 10 then [digit_char n] else string_of_nat (n div 10) @ [digit_char (n mod 10)])"

definition string_of_int :: "int \<Rightarrow> string" where
  "string_of_int i = (if i < 0 then CHR ''-'' # string_of_nat (nat (- i)) else string_of_nat (nat i))"

text \<open>
  The function-local \<^verbatim>\<open>static bool const verbose_message\<close>: its initialiser returns
  \<^verbatim>\<open>true\<close> (the environment lookup is commented out).
\<close>

definition verbose_message :: bool where
  "verbose_message = True"

text \<open>
  \<^verbatim>\<open>build_runtime_error_msg\<close>: every \<^verbatim>\<open>msg << s\<close> appends \<open>s\<close>.  \<open>CHR 0x0A\<close> is the
  newline and \<open>CHR 0x27\<close> the single quote.
\<close>

definition build_runtime_error_msg :: "RuntimeErrorDetails \<Rightarrow> string" where
  "build_runtime_error_msg d =
     (let msg = ''celeritas: '' @ color_code CHR ''R''
                 @ (if which d = [] then ''unknown'' else which d)
                 @ '' error: '' @ color_code CHR '' '';
          msg = (if which d = ''configuration''
                 then msg @ ''required dependency is disabled in this build: ''
                 else if which d = ''implementation''
                 then msg @ ''feature is not yet implemented: ''
                 else msg);
          msg = msg @ what d
      in if verbose_message \<or> what d = [] \<or> which d \<noteq> ''runtime''
         then
           (let msg = msg @ [CHR 0x0A]
                       @ color_code (if condition d = [] then CHR ''x'' else CHR ''W'')
                       @ (if source_file d = [] then ''unknown source'' else source_file d);
                msg = (if line d \<noteq> 0 \<and> source_file d \<noteq> []
                       then msg @ [CHR '':''] @ string_of_int (line d)
                       else msg);
                msg = msg @ [CHR '':''] @ color_code CHR '' ''
            in if condition d \<noteq> []
               then msg @ '' '' @ [CHR 0x27] @ condition d @ [CHR 0x27] @ '' failed''
               else msg @ '' failure'')
         else msg)"

section \<open>Name resolver (detail/TranslationTypes.hh, function make-gdml-name)\<close>

text \<open>
  \<^verbatim>\<open>make_gdml_name\<close> calls into Geant4, which is not part of these sources:
  \<^verbatim>\<open>G4LogicalVolume::GetName\<close>, \<^verbatim>\<open>G4ReflectionFactory::GetConstituentLV\<close> (a null
  pointer, address \<open>0\<close>, for a volume that is not a reflected copy),
  \<^verbatim>\<open>G4ReflectionFactory::GetVolumesNameExtension\<close> and
  \<^verbatim>\<open>G4GDMLWriteStructure::GenerateName\<close> of the function-local static writer, taken to
  be a function of its two arguments.  The four are the fields of the parameter \<open>g4\<close>;
  a logical volume is the address of the \<^verbatim>\<open>G4LogicalVolume\<close> object.
\<close>

record Geant4 =
  GetName :: "pointer \<Rightarrow> string"
  GetConstituentLV :: "pointer \<Rightarrow> pointer"
  GetVolumesNameExtension :: string
  GenerateName :: "string \<Rightarrow> pointer \<Rightarrow> string"

definition make_gdml_name :: "Geant4 \<Rightarrow> pointer \<Rightarrow> string" where
  "make_gdml_name g4 lv =
     (let unrefl_lv = GetConstituentLV g4 lv
      in if unrefl_lv \<noteq> 0
         then
           (let name = GenerateName g4 (GetName g4 unrefl_lv) unrefl_lv;
                name = name @ GetVolumesNameExtension g4
            in name)
         else GenerateName g4 (GetName g4 lv) lv)"

section \<open>Approximate equality (detail/TranslationTypes.hh, class SoftEqual)\<close>

text \<open>
  A \<^verbatim>\<open>double\<close> is a finite value, an infinity or a NaN.  The two zeros are one
  value here: the comparison uses \<^verbatim>\<open>fabs\<close>, \<^verbatim>\<open>fmax\<close>, \<^verbatim>\<open>-\<close>, \<^verbatim>\<open>*\<close> and
  \<^verbatim>\<open><\<close> only; the sign of a zero operand changes at most the sign of a zero result of
  the first four, and \<^verbatim>\<open><\<close> does not see the sign of a zero.
\<close>

datatype double = Finite real | PlusInf | MinusInf | NaN

text \<open>
  The result of \<^verbatim>\<open>a - b\<close> and of \<^verbatim>\<open>a * b\<close> on finite operands is the exact result
  rounded to a \<^verbatim>\<open>double\<close>; the rounding is the parameter \<open>rnd\<close> of the two
  operations.  The results on infinities and NaN are those of IEEE 754.
\<close>

type_synonym rounding = "real \<Rightarrow> double"

fun fabs :: "double \<Rightarrow> double" where
  "fabs (Finite x) = Finite \<bar>x\<bar>"
| "fabs PlusInf = PlusInf"
| "fabs MinusInf = PlusInf"
| "fabs NaN = NaN"

text \<open>\<^verbatim>\<open>std::fmax\<close>: when one argument is a NaN, the other argument.\<close>

fun fmax :: "double \<Rightarrow> double \<Rightarrow> double" where
  "fmax NaN y = y"
| "fmax x NaN = x"
| "fmax PlusInf y = PlusInf"
| "fmax x PlusInf = PlusInf"
| "fmax MinusInf y = y"
| "fmax x MinusInf = x"
| "fmax (Finite x) (Finite y) = Finite (max x y)"

text \<open>The comparison \<^verbatim>\<open>a < b\<close>: false when an operand is a NaN.\<close>

fun double_less :: "double \<Rightarrow> double \<Rightarrow> bool" where
  "double_less NaN y = False"
| "double_less x NaN = False"
| "double_less PlusInf y = False"
| "double_less x PlusInf = True"
| "double_less x MinusInf = False"
| "double_less MinusInf y = True"
| "double_less (Finite x) (Finite y) = (x < y)"

fun double_minus :: "rounding \<Rightarrow> double \<Rightarrow> double \<Rightarrow> double" where
  "double_minus rnd NaN y = NaN"
| "double_minus rnd x NaN = NaN"
| "double_minus rnd PlusInf PlusInf = NaN"
| "double_minus rnd MinusInf MinusInf = NaN"
| "double_minus rnd PlusInf y = PlusInf"
| "double_minus rnd MinusInf y = MinusInf"
| "double_minus rnd x PlusInf = MinusInf"
| "double_minus rnd x MinusInf = PlusInf"
| "double_minus rnd (Finite x) (Finite y) = rnd (x - y)"

definition signed_inf :: "bool \<Rightarrow> double" where
  "signed_inf positive = (if positive then PlusInf else MinusInf)"

fun double_times :: "rounding \<Rightarrow> double \<Rightarrow> double \<Rightarrow> double" where
  "double_times rnd NaN y = NaN"
| "double_times rnd x NaN = NaN"
| "double_times rnd (Finite x) (Finite y) = rnd (x * y)"
| "double_times rnd (Finite x) PlusInf = (if x = 0 then NaN else signed_inf (0 < x))"
| "double_times rnd (Finite x) MinusInf = (if x = 0 then NaN else signed_inf (x < 0))"
| "double_times rnd PlusInf (Finite y) = (if y = 0 then NaN else signed_inf (0 < y))"
| "double_times rnd MinusInf (Finite y) = (if y = 0 then NaN else signed_inf (y < 0))"
| "double_times rnd PlusInf PlusInf = PlusInf"
| "double_times rnd MinusInf MinusInf = PlusInf"
| "double_times rnd PlusInf MinusInf = MinusInf"
| "double_times rnd MinusInf PlusInf = MinusInf"

text \<open>
  Rounding to the nearest binary64 value, ties to even: the default rounding of a
  \<^verbatim>\<open>double\<close> operation.  A non-zero \<open>x\<close> is scaled by the power of two \<open>e\<close> that
  leaves 53 significant bits (\<open>e\<close> is at least \<open>- 1074\<close>, the exponent of the
  subnormal numbers), rounded to an integer, and scaled back; a result of magnitude
  \<open>2 ^ 1024\<close> is an infinity.
\<close>

definition round_half_even :: "real \<Rightarrow> int" where
  "round_half_even q =
     (let f = \<lfloor>q\<rfloor>; r = q - of_int f
      in if r < 1 / 2 then f else if 1 / 2 < r then f + 1 else if even f then f else f + 1)"

definition binary64_round :: rounding where
  "binary64_round x =
     (if x = 0 then Finite 0
      else
        (let e = max (\<lfloor>log 2 \<bar>x\<bar>\<rfloor> - 52) (- 1074);
             m = round_half_even (\<bar>x\<bar> / 2 powi e);
             y = of_int m * 2 powi e
         in if 2 ^ 1024 \<le> y then signed_inf (0 < x) else Finite (sgn x * y)))"

text \<open>
  \<^verbatim>\<open>SoftEqualTraits<double>\<close>: the literals \<^verbatim>\<open>1.0e-12\<close> and \<^verbatim>\<open>1.0e-14\<close> are the
  decimal values rounded to a \<^verbatim>\<open>double\<close>.
\<close>

definition rel_prec :: "rounding \<Rightarrow> double" where
  "rel_prec rnd = rnd (1 / 10 ^ 12)"

definition abs_thresh :: "rounding \<Rightarrow> double" where
  "abs_thresh rnd = rnd (1 / 10 ^ 14)"

text \<open>
  \<^verbatim>\<open>class SoftEqual\<close> with its private members \<^verbatim>\<open>rel_\<close> and \<^verbatim>\<open>abs_\<close>, read by the
  accessors \<^verbatim>\<open>rel()\<close> and \<^verbatim>\<open>abs()\<close>.  \<^verbatim>\<open>CELER_EXPECT\<close> expands to nothing, so the
  constructors check nothing.
\<close>

record SoftEqual =
  SoftEqual_rel :: double
  SoftEqual_abs :: double

definition SoftEqual_default :: "rounding \<Rightarrow> SoftEqual" where
  "SoftEqual_default rnd = \<lparr>SoftEqual_rel = rel_prec rnd, SoftEqual_abs = abs_thresh rnd\<rparr>"

definition SoftEqual_rel_abs :: "double \<Rightarrow> double \<Rightarrow> SoftEqual" where
  "SoftEqual_rel_abs rel_in abs_in = \<lparr>SoftEqual_rel = rel_in, SoftEqual_abs = abs_in\<rparr>"

text \<open>\<^verbatim>\<open>SoftEqual::operator()(value_type a, value_type b)\<close>.\<close>

definition SoftEqual_call :: "rounding \<Rightarrow> SoftEqual \<Rightarrow> double \<Rightarrow> double \<Rightarrow> bool" where
  "SoftEqual_call rnd eq a b =
     (let rel_tmp = double_times rnd (SoftEqual_rel eq) (fmax (fabs a) (fabs b))
      in double_less (fabs (double_minus rnd a b)) (fmax (SoftEqual_abs eq) rel_tmp))"

section \<open>The converter's walk over the source geometry\<close>

text \<open>
  Modelled from the spec: the source geometry (Geant4 objects, not part of these
  sources).  A logical volume is an object at a stable address with the logical volumes
  of its daughter placements, one list entry per placement; the world is a physical
  volume placing the root logical volume.  A logical volume placed several times occurs
  several times, each time with the same address.
\<close>

datatype G4LogicalVolume =
  G4LogicalVolume (lv_address: pointer) (lv_daughters: "G4LogicalVolume list")

datatype G4VPhysicalVolume = G4VPhysicalVolume (GetLogicalVolume: G4LogicalVolume)

text \<open>
  Modelled from the spec: the placements reachable from a logical volume (itself
  included), and the distinct logical volumes reachable from the world, by address.
\<close>

fun placements :: "G4LogicalVolume \<Rightarrow> G4LogicalVolume list" where
  "placements (G4LogicalVolume address daughters) =
     G4LogicalVolume address daughters # concat (map placements daughters)"

definition reachable_volumes :: "G4VPhysicalVolume \<Rightarrow> pointer set" where
  "reachable_volumes world_in = lv_address ` set (placements (GetLogicalVolume world_in))"

text \<open>
  Modelled from the spec: an address identifies one logical volume, so two placements
  with the same address are placements of the same object.
\<close>

definition one_object_per_address :: "G4LogicalVolume \<Rightarrow> bool" where
  "one_object_per_address lv \<longleftrightarrow>
     (\<forall>u \<in> set (placements lv). \<forall>v \<in> set (placements lv).
        lv_address u = lv_address v \<longrightarrow> u = v)"

text \<open>
  Modelled from the spec: the external Converter, which is not part of these sources.
  It walks the source geometry from the world's logical volume and converts each
  distinct logical volume once: a table from logical volume to identifier is consulted
  before a volume's subtree is entered, and a volume found there is skipped.  A volume
  met for the first time gets the next identifier; identifiers start at \<open>0\<close> and only
  increment.  The conversion of a volume may fail (an unsupported solid, or a mismatch
  when \<open>compare_volumes\<close> is set): \<open>failure lv\<close> is then the error raised, which ends
  the walk.
\<close>

record 'id Converter_state =
  volume_ids :: "(pointer \<times> 'id OpaqueId) list"
  next_id :: "'id OpaqueId"

text \<open>
  Modelled from the spec: the converter's visit of one logical volume and of the
  daughters of a volume, in the order of their placements.
\<close>

fun build_with_daughters ::
    "(pointer \<Rightarrow> 'e option) \<Rightarrow> G4LogicalVolume \<Rightarrow> 'w::len word Converter_state
      \<Rightarrow> 'e + 'w word Converter_state"
  and build_daughters ::
    "(pointer \<Rightarrow> 'e option) \<Rightarrow> G4LogicalVolume list \<Rightarrow> 'w::len word Converter_state
      \<Rightarrow> 'e + 'w word Converter_state"
where
  "build_with_daughters failure (G4LogicalVolume address daughters) state =
     (case map_of (volume_ids state) address of
        Some vid \<Rightarrow> Inr state
      | None \<Rightarrow>
          (case failure address of
             Some exception \<Rightarrow> Inl exception
           | None \<Rightarrow>
               build_daughters failure daughters
                 \<lparr>volume_ids = (address, next_id state) # volume_ids state,
                  next_id = pre_increment (next_id state)\<rparr>))"
| "build_daughters failure [] state = Inr state"
| "build_daughters failure (daughter # daughters) state =
     (case build_with_daughters failure daughter state of
        Inl exception \<Rightarrow> Inl exception
      | Inr state' \<Rightarrow> build_daughters failure daughters state')"

text \<open>
  Modelled from the spec: the converter's \<open>convert(world)\<close>, which returns the
  destination world (the pointer \<open>vg_world\<close>) and the table of the walk.
\<close>

definition Converter_walk ::
  "(Converter_Options \<Rightarrow> pointer \<Rightarrow> 'e option) \<Rightarrow> pointer
    \<Rightarrow> ('e, G4VPhysicalVolume, 'w::len word) Converter"
where
  "Converter_walk failure vg_world options world_in =
     (case build_with_daughters (failure options) (GetLogicalVolume world_in)
             \<lparr>volume_ids = [], next_id = OpaqueId 0\<rparr> of
        Inl exception \<Rightarrow> Inl exception
      | Inr state \<Rightarrow> Inr \<lparr>result_world = vg_world, result_volumes = volume_ids state\<rparr>)"

text \<open>
  Notions used to reason about the walk: the addresses in the converter's table, the
  addresses below a logical volume, and a table that holds every address below each
  volume of its own, the volumes still being entered apart.
\<close>

definition visited :: "'id Converter_state \<Rightarrow> pointer set" where
  "visited state = fst ` set (volume_ids state)"

definition addresses :: "G4LogicalVolume \<Rightarrow> pointer set" where
  "addresses lv = lv_address ` set (placements lv)"

definition closed_except :: "G4LogicalVolume \<Rightarrow> pointer set \<Rightarrow> pointer set \<Rightarrow> bool" where
  "closed_except base seen opened \<longleftrightarrow>
     (\<forall>s \<in> set (placements base).
        lv_address s \<in> seen \<longrightarrow> lv_address s \<notin> opened \<longrightarrow> addresses s \<subseteq> seen)"

section \<open>Opaque identifiers: validity and increment\<close>

lemma unat_invalid_value: "unat (invalid_value :: 'w::len word) = 2 ^ LENGTH('w) - 1"
  by (simp add: invalid_value_def unsigned_minus_1_eq_mask mask_eq_exp_minus_1)

lemma two_le_exp_len: "(2::nat) \<le> 2 ^ LENGTH('w::len)"
  using self_le_power [of "2::nat" "LENGTH('w)"] by simp

lemma below_invalid_value:
  fixes index :: "'w::len word"
  assumes "unat index \<le> 2 ^ LENGTH('w) - 2"
  shows "index \<noteq> invalid_value"
proof
  assume "index = invalid_value"
  then have "unat index = 2 ^ LENGTH('w) - 1" by (simp add: unat_invalid_value)
  with assms two_le_exp_len [where 'w='w] show False by arith
qed

lemma unat_plus_one:
  fixes v :: "'w::len word"
  assumes "unat v < 2 ^ LENGTH('w) - 1"
  shows "unat (v + 1) = unat v + 1"
proof -
  have "unat (v + 1) = (unat v + 1) mod 2 ^ LENGTH('w)"
    by (simp add: unat_word_ariths)
  also from assms have "\<dots> = unat v + 1" by simp
  finally show ?thesis .
qed

text \<open>
  Claim C7.  A default-constructed identifier converts to \<open>False\<close>; it stores
  \<open>2 ^ w - 1\<close>, every bit of which is set; and every identifier constructed
  explicitly with an index in \<open>0 \<dots> 2 ^ w - 2\<close> converts to \<open>True\<close> and differs
  from the default-constructed one.
\<close>

theorem OpaqueId_default_invalid:
  "\<not> operator_bool (OpaqueId_default :: 'w::len word OpaqueId)
   \<and> unat (unchecked_get (OpaqueId_default :: 'w word OpaqueId)) = 2 ^ LENGTH('w) - 1
   \<and> (\<forall>n < LENGTH('w). bit (unchecked_get (OpaqueId_default :: 'w word OpaqueId)) n)
   \<and> (\<forall>index :: 'w word. unat index \<le> 2 ^ LENGTH('w) - 2 \<longrightarrow>
         operator_bool (OpaqueId index) \<and> OpaqueId index \<noteq> OpaqueId_default)"
proof (intro conjI allI impI)
  show "\<not> operator_bool (OpaqueId_default :: 'w word OpaqueId)"
    by (simp add: operator_bool_def OpaqueId_default_def)
  show "unat (unchecked_get (OpaqueId_default :: 'w word OpaqueId)) = 2 ^ LENGTH('w) - 1"
    by (simp add: unchecked_get_def OpaqueId_default_def unat_invalid_value)
  show "bit (unchecked_get (OpaqueId_default :: 'w word OpaqueId)) n" if "n < LENGTH('w)" for n
    using that by (simp add: unchecked_get_def OpaqueId_default_def invalid_value_def)
next
  fix index :: "'w word"
  assume "unat index \<le> 2 ^ LENGTH('w) - 2"
  then have ne: "index \<noteq> invalid_value" by (rule below_invalid_value)
  then show "operator_bool (OpaqueId index)" by (simp add: operator_bool_def)
  from ne show "OpaqueId index \<noteq> OpaqueId_default" by (simp add: OpaqueId_default_def)
qed

theorem OpaqueId_default_invalid_witness:
  "\<not> operator_bool (OpaqueId_default :: 8 word OpaqueId)
   \<and> unat (unchecked_get (OpaqueId_default :: 8 word OpaqueId)) = 255
   \<and> bit (unchecked_get (OpaqueId_default :: 8 word OpaqueId)) 7
   \<and> unat (254 :: 8 word) \<le> 2 ^ LENGTH(8) - 2
   \<and> operator_bool (OpaqueId (254 :: 8 word))
   \<and> OpaqueId (254 :: 8 word) \<noteq> OpaqueId_default"
  using OpaqueId_default_invalid [where 'w=8] by simp

text \<open>
  Claim C10.  Pre-increment of a valid identifier storing \<open>v < 2 ^ w - 2\<close> gives a
  valid identifier storing \<open>v + 1\<close>, and post-increment returns the prior value
  beside the incremented object; pre-increment of the valid identifier storing
  \<open>2 ^ w - 2\<close> gives the invalid sentinel.
\<close>

theorem OpaqueId_increment:
  fixes x :: "'w::len word OpaqueId"
  shows "(operator_bool x \<and> unat (stored_value x) < 2 ^ LENGTH('w) - 2 \<longrightarrow>
            operator_bool (pre_increment x)
          \<and> unat (stored_value (pre_increment x)) = unat (stored_value x) + 1
          \<and> fst (post_increment x) = x
          \<and> snd (post_increment x) = pre_increment x)
       \<and> (unat (stored_value x) = 2 ^ LENGTH('w) - 2 \<longrightarrow>
            operator_bool x
          \<and> \<not> operator_bool (pre_increment x)
          \<and> pre_increment x = OpaqueId_default)"
proof (intro conjI impI)
  assume a: "operator_bool x \<and> unat (stored_value x) < 2 ^ LENGTH('w) - 2"
  then have lt: "unat (stored_value x) < 2 ^ LENGTH('w) - 1" by arith
  have eq: "unat (stored_value x + 1) = unat (stored_value x) + 1"
    using lt by (rule unat_plus_one)
  with a have "unat (stored_value x + 1) \<le> 2 ^ LENGTH('w) - 2" by arith
  then have "stored_value x + 1 \<noteq> invalid_value" by (rule below_invalid_value)
  then show "operator_bool (pre_increment x)"
    by (simp add: operator_bool_def pre_increment_def)
  show "unat (stored_value (pre_increment x)) = unat (stored_value x) + 1"
    using eq by (simp add: pre_increment_def)
  show "fst (post_increment x) = x" by (simp add: post_increment_def)
  show "snd (post_increment x) = pre_increment x" by (simp add: post_increment_def)
next
  assume a: "unat (stored_value x) = 2 ^ LENGTH('w) - 2"
  then have "unat (stored_value x) \<le> 2 ^ LENGTH('w) - 2" by simp
  then have "stored_value x \<noteq> invalid_value" by (rule below_invalid_value)
  then show "operator_bool x" by (simp add: operator_bool_def)
  from a two_le_exp_len [where 'w='w]
  have lt: "unat (stored_value x) < 2 ^ LENGTH('w) - 1" by arith
  have "unat (stored_value x + 1) = unat (stored_value x) + 1"
    using lt by (rule unat_plus_one)
  with a two_le_exp_len [where 'w='w]
  have "unat (stored_value x + 1) = 2 ^ LENGTH('w) - 1" by arith
  then have "unat (stored_value x + 1) = unat (invalid_value :: 'w word)"
    by (simp add: unat_invalid_value)
  then have inv: "stored_value x + 1 = invalid_value"
    by (simp add: word_unat_eq_iff)
  then show "\<not> operator_bool (pre_increment x)"
    by (simp add: operator_bool_def pre_increment_def)
  from inv show "pre_increment x = OpaqueId_default"
    by (simp add: pre_increment_def OpaqueId_default_def)
qed

theorem OpaqueId_increment_witness:
  "operator_bool (OpaqueId (3 :: 8 word)) \<and> unat (3 :: 8 word) < 2 ^ LENGTH(8) - 2
   \<and> operator_bool (pre_increment (OpaqueId (3 :: 8 word)))
   \<and> stored_value (pre_increment (OpaqueId (3 :: 8 word))) = 4
   \<and> post_increment (OpaqueId (3 :: 8 word)) = (OpaqueId 3, OpaqueId 4)
   \<and> unat (254 :: 8 word) = 2 ^ LENGTH(8) - 2
   \<and> operator_bool (OpaqueId (254 :: 8 word))
   \<and> \<not> operator_bool (pre_increment (OpaqueId (254 :: 8 word)))
   \<and> pre_increment (OpaqueId (254 :: 8 word)) = OpaqueId 255"
  using OpaqueId_increment [of "OpaqueId (3 :: 8 word)"]
    OpaqueId_increment [of "OpaqueId (254 :: 8 word)"]
  by (simp add: pre_increment_def post_increment_def operator_bool_def invalid_value_def
      OpaqueId_default_def)

section \<open>Conversion facade: remapping of the converter's result\<close>

lemma umap_insert_apply:
  "umap_insert k v m k' = (if k' = k \<and> m k = None then Some v else m k')"
  by (simp add: umap_insert_def split: option.splits)

lemma remap_volumes_apply:
  "remap_volumes entries m lv =
     (case m lv of
        Some v \<Rightarrow> Some v
      | None \<Rightarrow> map_option (\<lambda>vid. ucast (unchecked_get vid)) (map_of entries lv))"
proof (induction entries arbitrary: m)
  case Nil
  then show ?case by (simp split: option.splits)
next
  case (Cons entry entries)
  obtain k vid where entry: "entry = (k, vid)" by (cases entry)
  show ?case
    by (simp add: entry Cons.IH umap_insert_apply split: option.splits)
qed

lemma dom_remap_volumes:
  "dom (remap_volumes entries m) = dom m \<union> fst ` set entries"
proof -
  have "lv \<in> dom (remap_volumes entries m) \<longleftrightarrow> lv \<in> dom m \<union> fst ` set entries" for lv
  proof (cases "m lv")
    case None
    then show ?thesis
      by (simp add: domIff remap_volumes_apply map_of_eq_None_iff)
  next
    case (Some v)
    then show ?thesis
      by (simp add: domIff remap_volumes_apply)
  qed
  then show ?thesis by blast
qed


text \<open>An exception of the converter leaves \<open>convert\<close> unchanged.\<close>

lemma convert_propagates_exception:
  "converter (make_geocel_opts options) world_in = Inl exception
     \<Longrightarrow> convert converter world_in options = Inl exception"
  by (simp add: convert_def)



text \<open>
  Claim C9.  The single-argument \<open>convert\<close> returns what the two-argument
  \<open>convert\<close> returns for the options \<open>verbose = False\<close>,
  \<open>compare_volumes = False\<close>.
\<close>

theorem convert_world_default_options:
  "convert_world converter world_in
     = convert converter world_in \<lparr>verbose = False, compare_volumes = False\<rparr>"
  by (simp add: convert_world_def Options_default_def)

section \<open>Structured runtime error: the rendered message\<close>

lemma sublist_in_context: "sublist xs (ps @ xs @ ss)"
  by (rule sublist_appendI)

lemma sublist_of_prefix_in_context: "sublist xs (ps @ (xs @ ts) @ ss)"
  using sublist_appendI [of xs ps "ts @ ss"] by simp

text \<open>
  Claim C8, as stated, at an error of kind \<open>runtime\<close> whose message is the canned
  text itself: the rendered message contains the text although the kind is not
  \<open>configuration\<close>.
\<close>

theorem build_runtime_error_msg_contains_counterexample:
  "sublist ''required dependency is disabled in this build''
     (build_runtime_error_msg
        \<lparr>which = ''runtime'', what = ''required dependency is disabled in this build'',
         condition = [], source_file = [], line = 0\<rparr>)
   \<and> which \<lparr>which = ''runtime'', what = ''required dependency is disabled in this build'',
         condition = [], source_file = [], line = 0\<rparr> \<noteq> ''configuration''"
proof -
  have "build_runtime_error_msg
        \<lparr>which = ''runtime'', what = ''required dependency is disabled in this build'',
         condition = [], source_file = [], line = 0\<rparr>
      = ''celeritas: runtime error: ''
        @ ''required dependency is disabled in this build''
        @ (CHR 0x0A # ''unknown source: failure'')"
    by (simp add: build_runtime_error_msg_def color_code_def verbose_message_def)
  then show ?thesis
    by (simp only: sublist_in_context) simp
qed

text \<open>
  Claim C8, amended.  The rendered message is \<open>celeritas: \<close>, the kind (or
  \<open>unknown\<close> when it is empty), \<open> error: \<close>, a canned prefix, \<open>d.what\<close>, and the
  location detail.  The canned prefix is the one for a disabled dependency exactly when
  the kind is \<open>configuration\<close>, the one for a missing feature exactly when the kind is
  \<open>implementation\<close>, and empty for every other kind; so the message contains the canned
  text whenever the kind is the matching one.  The location detail (a newline, the source
  file or \<open>unknown source\<close>, the line when it is non-zero and the file is known, and the
  failed condition or \<open>failure\<close>) ends the message for every \<open>d\<close>, hence whenever the
  kind is not \<open>runtime\<close> or \<open>d.what\<close> is empty.
\<close>

theorem build_runtime_error_msg_structure:
  "\<exists>canned detail.
      build_runtime_error_msg d
        = ''celeritas: '' @ (if which d = [] then ''unknown'' else which d) @ '' error: ''
          @ canned @ what d @ detail
    \<and> (canned = ''required dependency is disabled in this build: ''
          \<longleftrightarrow> which d = ''configuration'')
    \<and> (canned = ''feature is not yet implemented: '' \<longleftrightarrow> which d = ''implementation'')
    \<and> (which d \<noteq> ''configuration'' \<and> which d \<noteq> ''implementation'' \<longrightarrow> canned = [])
    \<and> (which d = ''configuration'' \<longrightarrow>
          sublist ''required dependency is disabled in this build''
            (build_runtime_error_msg d))
    \<and> (which d = ''implementation'' \<longrightarrow>
          sublist ''feature is not yet implemented'' (build_runtime_error_msg d))
    \<and> detail
        = [CHR 0x0A] @ (if source_file d = [] then ''unknown source'' else source_file d)
          @ (if line d \<noteq> 0 \<and> source_file d \<noteq> []
             then [CHR '':''] @ string_of_int (line d) else [])
          @ [CHR '':'']
          @ (if condition d \<noteq> []
             then '' '' @ [CHR 0x27] @ condition d @ [CHR 0x27] @ '' failed''
             else '' failure'')"
proof -
  let ?head = "''celeritas: '' @ (if which d = [] then ''unknown'' else which d) @ '' error: ''"
  let ?canned = "if which d = ''configuration''
      then ''required dependency is disabled in this build: ''
      else if which d = ''implementation'' then ''feature is not yet implemented: '' else []"
  let ?detail = "[CHR 0x0A] @ (if source_file d = [] then ''unknown source'' else source_file d)
          @ (if line d \<noteq> 0 \<and> source_file d \<noteq> []
             then [CHR '':''] @ string_of_int (line d) else [])
          @ [CHR '':'']
          @ (if condition d \<noteq> []
             then '' '' @ [CHR 0x27] @ condition d @ [CHR 0x27] @ '' failed''
             else '' failure'')"
  have msg: "build_runtime_error_msg d = ?head @ ?canned @ what d @ ?detail"
    by (simp add: build_runtime_error_msg_def color_code_def verbose_message_def Let_def)
  have conf: "sublist ''required dependency is disabled in this build''
      (build_runtime_error_msg d)" if "which d = ''configuration''"
  proof -
    have "build_runtime_error_msg d
        = ?head @ (''required dependency is disabled in this build'' @ '': '')
          @ (what d @ ?detail)"
      using that by (simp add: msg)
    then show ?thesis by (simp only: sublist_of_prefix_in_context)
  qed
  have impl: "sublist ''feature is not yet implemented'' (build_runtime_error_msg d)"
    if "which d = ''implementation''"
  proof -
    have "build_runtime_error_msg d
        = ?head @ (''feature is not yet implemented'' @ '': '') @ (what d @ ?detail)"
      using that by (simp add: msg)
    then show ?thesis by (simp only: sublist_of_prefix_in_context)
  qed
  have c1: "?canned = ''required dependency is disabled in this build: ''
      \<longleftrightarrow> which d = ''configuration''"
    by simp
  have c2: "?canned = ''feature is not yet implemented: '' \<longleftrightarrow> which d = ''implementation''"
    by simp
  have c3: "which d \<noteq> ''configuration'' \<and> which d \<noteq> ''implementation'' \<longrightarrow> ?canned = []"
    by simp
  show ?thesis
    apply (rule exI [of _ ?canned])
    apply (rule exI [of _ ?detail])
    apply (intro conjI)
          apply (simp add: msg)
         apply (rule c1)
        apply (rule c2)
       apply (rule c3)
      apply (simp add: conf)
     apply (simp add: impl)
    apply (rule refl)
    done
qed

theorem build_runtime_error_msg_structure_witness:
  "build_runtime_error_msg
      \<lparr>which = ''configuration'', what = ''no VecGeom'', condition = ''use_vecgeom'',
       source_file = ''G4VG.cc'', line = 43\<rparr>
     = ''celeritas: configuration error: required dependency is disabled in this build: ''
       @ ''no VecGeom'' @ [CHR 0x0A] @ ''G4VG.cc:43: '' @ [CHR 0x27] @ ''use_vecgeom''
       @ [CHR 0x27] @ '' failed''
   \<and> sublist ''required dependency is disabled in this build''
       (build_runtime_error_msg
         \<lparr>which = ''configuration'', what = ''no VecGeom'', condition = ''use_vecgeom'',
          source_file = ''G4VG.cc'', line = 43\<rparr>)
   \<and> build_runtime_error_msg
      \<lparr>which = ''implementation'', what = ''twisted solid'', condition = [],
       source_file = [], line = 7\<rparr>
     = ''celeritas: implementation error: feature is not yet implemented: twisted solid''
       @ [CHR 0x0A] @ ''unknown source: failure''
   \<and> sublist ''feature is not yet implemented''
       (build_runtime_error_msg
         \<lparr>which = ''implementation'', what = ''twisted solid'', condition = [],
          source_file = [], line = 7\<rparr>)
   \<and> build_runtime_error_msg
      \<lparr>which = ''runtime'', what = ''mismatch'', condition = [],
       source_file = ''a.cc'', line = 0\<rparr>
     = ''celeritas: runtime error: mismatch'' @ [CHR 0x0A] @ ''a.cc: failure''"
  using build_runtime_error_msg_structure [of
      "\<lparr>which = ''configuration'', what = ''no VecGeom'', condition = ''use_vecgeom'',
       source_file = ''G4VG.cc'', line = 43\<rparr>"]
    build_runtime_error_msg_structure [of
      "\<lparr>which = ''implementation'', what = ''twisted solid'', condition = [],
       source_file = [], line = 7\<rparr>"]
    build_runtime_error_msg_structure [of
      "\<lparr>which = ''runtime'', what = ''mismatch'', condition = [],
       source_file = ''a.cc'', line = 0\<rparr>"]
  by (auto simp: string_of_int_def digit_char_def)

section \<open>Name resolver: reflected volumes\<close>

text \<open>
  Claim C3, as stated, at a reflection factory whose name extension has been set to the
  empty string (volume \<open>1\<close> is the reflected copy of volume \<open>2\<close>): the two names are
  equal.  And at a factory that reports volume \<open>3\<close> as a reflected copy of volume
  \<open>1\<close>, itself reported as a reflected copy of volume \<open>2\<close>: the name of \<open>3\<close> is not
  the name of \<open>1\<close> followed by the extension.
\<close>

theorem make_gdml_name_reflected_counterexample:
  "make_gdml_name
      \<lparr>GetName = (\<lambda>lv. if lv = 1 then ''trd3_refl'' else ''trd3''),
       GetConstituentLV = (\<lambda>lv. if lv = 1 then 2 else 0),
       GetVolumesNameExtension = [],
       GenerateName = (\<lambda>name lv. name @ ''0x'' @ string_of_nat lv)\<rparr> 1
     = make_gdml_name
      \<lparr>GetName = (\<lambda>lv. if lv = 1 then ''trd3_refl'' else ''trd3''),
       GetConstituentLV = (\<lambda>lv. if lv = 1 then 2 else 0),
       GetVolumesNameExtension = [],
       GenerateName = (\<lambda>name lv. name @ ''0x'' @ string_of_nat lv)\<rparr> 2
   \<and> make_gdml_name
      \<lparr>GetName = (\<lambda>lv. if lv = 2 then ''trd3'' else ''trd3_refl''),
       GetConstituentLV = (\<lambda>lv. if lv = 3 then 1 else if lv = 1 then 2 else 0),
       GetVolumesNameExtension = ''_refl'',
       GenerateName = (\<lambda>name lv. name @ ''0x'' @ string_of_nat lv)\<rparr> 3
     \<noteq> make_gdml_name
      \<lparr>GetName = (\<lambda>lv. if lv = 2 then ''trd3'' else ''trd3_refl''),
       GetConstituentLV = (\<lambda>lv. if lv = 3 then 1 else if lv = 1 then 2 else 0),
       GetVolumesNameExtension = ''_refl'',
       GenerateName = (\<lambda>name lv. name @ ''0x'' @ string_of_nat lv)\<rparr> 1 @ ''_refl''"
  by (simp add: make_gdml_name_def digit_char_def)

text \<open>
  Claim C3, amended.  For a logical volume that the reflection factory reports as a
  reflected copy of a constituent volume which is not itself reported as a reflected
  copy, the name of the reflected volume is the name of the constituent followed by the
  factory's name extension; the two names differ exactly when that extension is not
  empty.
\<close>

theorem make_gdml_name_reflected:
  assumes "GetConstituentLV g4 lv = unrefl_lv"
    and "unrefl_lv \<noteq> 0"
    and "GetConstituentLV g4 unrefl_lv = 0"
  shows "make_gdml_name g4 lv = make_gdml_name g4 unrefl_lv @ GetVolumesNameExtension g4
     \<and> (make_gdml_name g4 lv \<noteq> make_gdml_name g4 unrefl_lv
          \<longleftrightarrow> GetVolumesNameExtension g4 \<noteq> [])"
  using assms by (simp add: make_gdml_name_def)

theorem make_gdml_name_reflected_witness:
  "GetConstituentLV
      \<lparr>GetName = (\<lambda>lv. if lv = 1 then ''trd3_refl'' else ''trd3''),
       GetConstituentLV = (\<lambda>lv. if lv = 1 then 2 else 0),
       GetVolumesNameExtension = ''_refl'',
       GenerateName = (\<lambda>name lv. name @ ''0x'' @ string_of_nat lv)\<rparr> 1 = 2
   \<and> (2 :: pointer) \<noteq> 0
   \<and> GetConstituentLV
      \<lparr>GetName = (\<lambda>lv. if lv = 1 then ''trd3_refl'' else ''trd3''),
       GetConstituentLV = (\<lambda>lv. if lv = 1 then 2 else 0),
       GetVolumesNameExtension = ''_refl'',
       GenerateName = (\<lambda>name lv. name @ ''0x'' @ string_of_nat lv)\<rparr> 2 = 0
   \<and> make_gdml_name
      \<lparr>GetName = (\<lambda>lv. if lv = 1 then ''trd3_refl'' else ''trd3''),
       GetConstituentLV = (\<lambda>lv. if lv = 1 then 2 else 0),
       GetVolumesNameExtension = ''_refl'',
       GenerateName = (\<lambda>name lv. name @ ''0x'' @ string_of_nat lv)\<rparr> 1
     = ''trd30x2_refl''
   \<and> make_gdml_name
      \<lparr>GetName = (\<lambda>lv. if lv = 1 then ''trd3_refl'' else ''trd3''),
       GetConstituentLV = (\<lambda>lv. if lv = 1 then 2 else 0),
       GetVolumesNameExtension = ''_refl'',
       GenerateName = (\<lambda>name lv. name @ ''0x'' @ string_of_nat lv)\<rparr> 2
     = ''trd30x2''"
  using make_gdml_name_reflected [of
      "\<lparr>GetName = (\<lambda>lv. if lv = 1 then ''trd3_refl'' else ''trd3''),
       GetConstituentLV = (\<lambda>lv. if lv = 1 then 2 else 0),
       GetVolumesNameExtension = ''_refl'',
       GenerateName = (\<lambda>name lv. name @ ''0x'' @ string_of_nat lv)\<rparr>" 1 2]
  by (simp add: make_gdml_name_def digit_char_def)

section \<open>Approximate equality: the comparison\<close>

lemma double_less_NaN_right: "\<not> double_less x NaN"
  by (cases x) simp_all

lemma double_minus_NaN_right: "double_minus rnd x NaN = NaN"
  by (cases x) simp_all

lemma fabs_double_minus_commute:
  assumes "\<And>x. fabs (rnd (- x)) = fabs (rnd x)"
  shows "fabs (double_minus rnd a b) = fabs (double_minus rnd b a)"
proof (cases a; cases b)
  fix x y
  assume "a = Finite x" and "b = Finite y"
  then show ?thesis using assms [of "x - y"] by simp
qed simp_all

lemma fmax_commute: "fmax a b = fmax b a"
  by (cases a; cases b) (simp_all add: max.commute)

lemma double_less_fmax_left:
  assumes "double_less (Finite 0) t"
  shows "double_less (Finite 0) (fmax t r)"
proof (cases t)
  case (Finite x)
  with assms show ?thesis by (cases r) (simp_all add: less_max_iff_disj)
next
  case PlusInf
  then show ?thesis by (cases r) simp_all
next
  case MinusInf
  with assms show ?thesis by simp
next
  case NaN
  with assms show ?thesis by simp
qed

lemma SoftEqual_call_commute:
  assumes "\<And>x. fabs (rnd (- x)) = fabs (rnd x)"
  shows "SoftEqual_call rnd eq a b = SoftEqual_call rnd eq b a"
proof -
  have "fabs (double_minus rnd a b) = fabs (double_minus rnd b a)"
    using assms by (rule fabs_double_minus_commute)
  moreover have "fmax (fabs a) (fabs b) = fmax (fabs b) (fabs a)"
    by (rule fmax_commute)
  ultimately show ?thesis by (simp add: SoftEqual_call_def)
qed

lemma SoftEqual_call_reflexive:
  assumes "rnd 0 = Finite 0"
    and "double_less (Finite 0) (SoftEqual_abs eq)"
  shows "SoftEqual_call rnd eq (Finite a) (Finite a)"
  using assms by (simp add: SoftEqual_call_def double_less_fmax_left)

lemma fabs_binary64_round_minus: "fabs (binary64_round (- x)) = fabs (binary64_round x)"
  by (auto simp: binary64_round_def Let_def signed_inf_def abs_mult)

lemma binary64_round_zero: "binary64_round 0 = Finite 0"
  by (simp add: binary64_round_def)

lemma binary64_round_one: "binary64_round 1 = Finite 1"
  by (simp add: binary64_round_def round_half_even_def Let_def power_int_minus field_simps)

lemma floor_log2_eqI:
  assumes "2 powi k \<le> x" and "x < 2 powi (k + 1)"
  shows "\<lfloor>log 2 x\<rfloor> = k"
proof -
  have pos: "0 < x"
    using assms(1) zero_less_power_int [of "2::real" k] by linarith
  have low: "2 powr (real_of_int k) \<le> x"
    using assms(1) by (simp add: powr_real_of_int')
  have "(2::real) powr (real_of_int k + 1) = 2 powi (k + 1)"
    by (simp add: powr_add powr_real_of_int' power_int_add)
  with assms(2) have high: "x < 2 powr (real_of_int k + 1)" by simp
  from low high pos show ?thesis
    by (simp add: floor_log_eq_powr_iff)
qed

lemma binary64_round_eqI:
  assumes "0 < x" and "2 powi k \<le> x" and "x < 2 powi (k + 1)"
    and "e = max (k - 52) (- 1074)"
    and "round_half_even (x / 2 powi e) = m"
    and "of_int m * 2 powi e < (2::real) ^ 1024"
  shows "binary64_round x = Finite (of_int m * 2 powi e)"
proof -
  have "\<lfloor>log 2 \<bar>x\<bar>\<rfloor> = k"
    using assms(1-3) by (simp add: floor_log2_eqI)
  then show ?thesis
    using assms by (simp add: binary64_round_def Let_def)
qed

lemma binary64_round_overflowI:
  assumes "0 < x" and "2 powi k \<le> x" and "x < 2 powi (k + 1)"
    and "e = max (k - 52) (- 1074)"
    and "round_half_even (x / 2 powi e) = m"
    and "(2::real) ^ 1024 \<le> of_int m * 2 powi e"
  shows "binary64_round x = PlusInf"
proof -
  have "\<lfloor>log 2 \<bar>x\<bar>\<rfloor> = k"
    using assms(1-3) by (simp add: floor_log2_eqI)
  then show ?thesis
    using assms by (simp add: binary64_round_def Let_def signed_inf_def)
qed

text \<open>
  The rounding at known values: ties go to the even significand, \<open>1 / 10\<close> becomes
  the \<^verbatim>\<open>double\<close> \<^verbatim>\<open>0x3FB999999999999A\<close>, the overflow threshold lies half a unit
  above the largest finite value, and the subnormal numbers are multiples of
  \<open>2 ^ - 1074\<close>.
\<close>

lemma binary64_round_tie_to_even_down: "binary64_round (2 ^ 53 + 1) = Finite (2 ^ 53)"
  using binary64_round_eqI [of "2 ^ 53 + 1" 53 1 "2 ^ 52"]
  by (simp add: round_half_even_def)

lemma binary64_round_tie_to_even_up: "binary64_round (2 ^ 53 + 3) = Finite (2 ^ 53 + 4)"
  using binary64_round_eqI [of "2 ^ 53 + 3" 53 1 "2 ^ 52 + 2"]
  by (simp add: round_half_even_def)

lemma binary64_round_one_tenth: "binary64_round (1 / 10) = Finite (3602879701896397 / 2 ^ 55)"
  using binary64_round_eqI [of "1 / 10" "- 4" "- 56" 7205759403792794]
  by (simp add: round_half_even_def power_int_minus)

lemma binary64_round_overflow: "binary64_round (2 ^ 1024 - 2 ^ 970) = PlusInf"
  using binary64_round_overflowI [of "2 ^ 1024 - 2 ^ 970" 1023 971 "2 ^ 53"]
  by (simp add: round_half_even_def)

lemma binary64_round_largest: "binary64_round (2 ^ 1024 - 2 ^ 971) = Finite (2 ^ 1024 - 2 ^ 971)"
  using binary64_round_eqI [of "2 ^ 1024 - 2 ^ 971" 1023 971 "2 ^ 53 - 1"]
  by (simp add: round_half_even_def)

lemma binary64_round_underflow: "binary64_round (1 / 2 ^ 1075) = Finite 0"
  using binary64_round_eqI [of "1 / 2 ^ 1075" "- 1075" "- 1074" 0]
  by (simp add: round_half_even_def power_int_minus)

lemma binary64_round_subnormal: "binary64_round (3 / 2 ^ 1075) = Finite (1 / 2 ^ 1073)"
  using binary64_round_eqI [of "3 / 2 ^ 1075" "- 1074" "- 1074" 2]
  by (simp add: round_half_even_def power_int_minus)

text \<open>The default tolerances as \<^verbatim>\<open>double\<close> values.\<close>

lemma rel_prec_binary64: "rel_prec binary64_round = Finite (4951760157141521 / 2 ^ 92)"
  unfolding rel_prec_def
  using binary64_round_eqI [of "1 / 10 ^ 12" "- 40" "- 92" 4951760157141521]
  by (simp add: round_half_even_def power_int_minus)

lemma abs_thresh_binary64: "abs_thresh binary64_round = Finite (6338253001141147 / 2 ^ 99)"
  unfolding abs_thresh_def
  using binary64_round_eqI [of "1 / 10 ^ 14" "- 47" "- 99" 6338253001141147]
  by (simp add: round_half_even_def power_int_minus)

text \<open>
  The error of the rounding: half a unit in the last place, which is at most the
  \<open>2 ^ 53\<close>-th part of the magnitude, or \<open>2 ^ - 1075\<close> among the subnormal numbers.
\<close>

lemma round_half_even_error: "\<bar>of_int (round_half_even q) - q\<bar> \<le> 1 / 2"
proof -
  have "of_int \<lfloor>q\<rfloor> \<le> q" "q < of_int \<lfloor>q\<rfloor> + 1" by linarith+
  then show ?thesis
    by (auto simp: round_half_even_def Let_def)
qed

lemma powi_floor_log2_le:
  assumes "0 < a"
  shows "2 powi \<lfloor>log 2 a\<rfloor> \<le> a"
proof -
  have "2 powr (of_int \<lfloor>log 2 a\<rfloor>) \<le> 2 powr (log 2 a)"
    by (intro powr_mono) simp_all
  also have "\<dots> = a" using assms by simp
  finally show ?thesis by (simp add: powr_real_of_int')
qed

lemma binary64_round_error:
  assumes "binary64_round x = Finite y"
  shows "\<bar>y - x\<bar> \<le> \<bar>x\<bar> / 2 ^ 53 + 1 / 2 ^ 1075"
proof (cases "x = 0")
  case True
  with assms show ?thesis by (simp add: binary64_round_def)
next
  case False
  define e where "e = max (\<lfloor>log 2 \<bar>x\<bar>\<rfloor> - 52) (- 1074)"
  define m where "m = round_half_even (\<bar>x\<bar> / 2 powi e)"
  have pos: "(0::real) < 2 powi e" by simp
  from assms False have y: "y = sgn x * (of_int m * 2 powi e)"
    by (auto simp: binary64_round_def Let_def e_def m_def signed_inf_def split: if_splits)
  have "\<bar>y - x\<bar> = \<bar>of_int m * 2 powi e - \<bar>x\<bar>\<bar>"
  proof (cases "0 < x")
    case True
    then show ?thesis by (simp add: y)
  next
    case False
    with \<open>x \<noteq> 0\<close> have "x < 0" by simp
    then show ?thesis by (simp add: y abs_minus_commute) 
  qed
  also have "\<dots> = \<bar>of_int m - \<bar>x\<bar> / 2 powi e\<bar> * 2 powi e"
  proof -
    have "of_int m * 2 powi e - \<bar>x\<bar> = (of_int m - \<bar>x\<bar> / 2 powi e) * 2 powi e"
      using pos by (simp add: field_simps)
    then show ?thesis using pos by (simp add: abs_mult)
  qed
  also have "\<dots> \<le> 1 / 2 * 2 powi e"
    using round_half_even_error [of "\<bar>x\<bar> / 2 powi e"] pos
    unfolding m_def by (intro mult_right_mono) simp_all
  finally have half: "\<bar>y - x\<bar> \<le> 2 powi e / 2" by simp
  have "(2::real) powi e \<le> \<bar>x\<bar> / 2 ^ 52 + 1 / 2 ^ 1074"
  proof (cases "- 1074 \<le> \<lfloor>log 2 \<bar>x\<bar>\<rfloor> - 52")
    case True
    then have "e = \<lfloor>log 2 \<bar>x\<bar>\<rfloor> - 52" by (simp add: e_def)
    then have "(2::real) powi e = 2 powi \<lfloor>log 2 \<bar>x\<bar>\<rfloor> / 2 ^ 52"
      by (simp add: power_int_diff)
    also have "\<dots> \<le> \<bar>x\<bar> / 2 ^ 52"
      using powi_floor_log2_le [of "\<bar>x\<bar>"] False by (simp add: divide_right_mono)
    finally show ?thesis by simp
  next
    case False
    then have "e = - 1074" by (simp add: e_def)
    then have "(2::real) powi e = 1 / 2 ^ 1074" by (simp add: power_int_minus field_simps)
    then show ?thesis by simp
  qed
  with half show ?thesis by simp
qed

text \<open>
  The comparison on finite values whose rounded difference and rounded scaled magnitude
  are finite, and the default comparator in binary64.
\<close>

lemma SoftEqual_call_finite:
  assumes "rnd (x - y) = Finite d" and "rnd (r * max (abs x) (abs y)) = Finite p"
  shows "SoftEqual_call rnd (SoftEqual_rel_abs (Finite r) (Finite t)) (Finite x) (Finite y)
     \<longleftrightarrow> \<bar>d\<bar> < max t p"
  using assms by (simp add: SoftEqual_call_def SoftEqual_rel_abs_def)

lemma SoftEqual_default_binary64:
  "SoftEqual_default binary64_round
     = SoftEqual_rel_abs (Finite (4951760157141521 / 2 ^ 92)) (Finite (6338253001141147 / 2 ^ 99))"
  by (simp add: SoftEqual_default_def SoftEqual_rel_abs_def rel_prec_binary64 abs_thresh_binary64)

text \<open>
  Claim C4, as stated, with the formula over the real numbers: for the default comparator
  and the \<^verbatim>\<open>double\<close> values \<open>a = 8192000000000001\<close> and \<open>b = 8191999999991809\<close>,
  the difference is \<open>8192\<close> and \<open>rel * max(|a|, |b|)\<close> is a little more than \<open>8192\<close>,
  so the formula holds; the product rounds to \<open>8192\<close>, and the comparison returns false.
\<close>

theorem SoftEqual_call_exact_formula_counterexample:
  "binary64_round 8192000000000001 = Finite 8192000000000001
   \<and> binary64_round 8191999999991809 = Finite 8191999999991809
   \<and> SoftEqual_default binary64_round
       = SoftEqual_rel_abs (Finite (4951760157141521 / 2 ^ 92)) (Finite (6338253001141147 / 2 ^ 99))
   \<and> \<not> SoftEqual_call binary64_round (SoftEqual_default binary64_round)
         (Finite 8192000000000001) (Finite 8191999999991809)
   \<and> \<bar>8192000000000001 - 8191999999991809 :: real\<bar>
       < max (6338253001141147 / 2 ^ 99)
           (4951760157141521 / 2 ^ 92 * max (abs 8192000000000001) (abs 8191999999991809))"
proof -
  let ?r = "4951760157141521 / 2 ^ 92 :: real"
  let ?t = "6338253001141147 / 2 ^ 99 :: real"
  have a: "binary64_round 8192000000000001 = Finite 8192000000000001"
    using binary64_round_eqI [of 8192000000000001 52 0 8192000000000001]
    by (simp add: round_half_even_def)
  have b: "binary64_round 8191999999991809 = Finite 8191999999991809"
    using binary64_round_eqI [of 8191999999991809 52 0 8191999999991809]
    by (simp add: round_half_even_def)
  have d: "binary64_round (8192000000000001 - 8191999999991809) = Finite 8192"
    using binary64_round_eqI [of 8192 13 "- 39" "2 ^ 52"]
    by (simp add: round_half_even_def power_int_minus)
  have "binary64_round (?r * 8192000000000001) = Finite 8192"
    using binary64_round_eqI [of "?r * 8192000000000001" 13 "- 39" "2 ^ 52"]
    by (simp add: round_half_even_def power_int_minus)
  then have p: "binary64_round (?r * max (abs 8192000000000001) (abs 8191999999991809)) = Finite 8192"
    by simp
  have compared: "\<not> SoftEqual_call binary64_round (SoftEqual_rel_abs (Finite ?r) (Finite ?t))
         (Finite 8192000000000001) (Finite 8191999999991809)"
    using SoftEqual_call_finite [OF d p, of ?t] by simp
  have code: "\<not> SoftEqual_call binary64_round (SoftEqual_default binary64_round)
         (Finite 8192000000000001) (Finite 8191999999991809)"
    unfolding SoftEqual_default_binary64 by (rule compared)
  have exact: "\<bar>8192000000000001 - 8191999999991809 :: real\<bar>
       < max ?t (?r * max (abs 8192000000000001) (abs 8191999999991809))"
    by simp
  from a b SoftEqual_default_binary64 code exact show ?thesis by blast
qed

text \<open>
  Claim C4, amended.  The comparison of \<open>a\<close> and \<open>b\<close> is true exactly when
  \<open>|d| < max(abs, p)\<close>, where \<open>d\<close> is \<open>a - b\<close> and \<open>p\<close> is \<open>rel * max(|a|, |b|)\<close>, each
  a \<^verbatim>\<open>double\<close> result: the exact value rounded to the nearest \<^verbatim>\<open>double\<close>.  On finite
  values with finite \<open>d\<close> and \<open>p\<close> this is the inequality of real numbers
  \<open>|d| < max abs p\<close>; \<open>d\<close> and \<open>p\<close> differ from the exact values \<open>v\<close> by at most
  \<open>|v| / 2 ^ 53 + 2 ^ - 1075\<close>, so the comparison is true when the exact formula holds
  with that margin and false when it fails with that margin.  The default constructor
  takes the \<^verbatim>\<open>double\<close> values nearest \<open>1e-12\<close> and \<open>1e-14\<close> for \<open>rel\<close> and \<open>abs\<close>.
\<close>

theorem SoftEqual_call_rounded_formula:
  "(SoftEqual_call binary64_round (SoftEqual_rel_abs rel_in abs_in) a b
      \<longleftrightarrow> double_less (fabs (double_minus binary64_round a b))
            (fmax abs_in (double_times binary64_round rel_in (fmax (fabs a) (fabs b)))))
   \<and> (binary64_round (x - y) = Finite d \<and> binary64_round (r * max (abs x) (abs y)) = Finite p \<longrightarrow>
        (SoftEqual_call binary64_round (SoftEqual_rel_abs (Finite r) (Finite t))
           (Finite x) (Finite y) \<longleftrightarrow> \<bar>d\<bar> < max t p)
      \<and> \<bar>d - (x - y)\<bar> \<le> \<bar>x - y\<bar> / 2 ^ 53 + 1 / 2 ^ 1075
      \<and> \<bar>p - r * max (abs x) (abs y)\<bar> \<le> \<bar>r * max (abs x) (abs y)\<bar> / 2 ^ 53 + 1 / 2 ^ 1075
      \<and> (\<bar>x - y\<bar> + (\<bar>x - y\<bar> / 2 ^ 53 + 1 / 2 ^ 1075)
            < max t (r * max (abs x) (abs y) - (\<bar>r * max (abs x) (abs y)\<bar> / 2 ^ 53 + 1 / 2 ^ 1075))
          \<longrightarrow> SoftEqual_call binary64_round (SoftEqual_rel_abs (Finite r) (Finite t))
                (Finite x) (Finite y))
      \<and> (SoftEqual_call binary64_round (SoftEqual_rel_abs (Finite r) (Finite t))
            (Finite x) (Finite y)
          \<longrightarrow> \<bar>x - y\<bar> - (\<bar>x - y\<bar> / 2 ^ 53 + 1 / 2 ^ 1075)
            < max t (r * max (abs x) (abs y) + (\<bar>r * max (abs x) (abs y)\<bar> / 2 ^ 53 + 1 / 2 ^ 1075))))
   \<and> SoftEqual_default binary64_round
       = SoftEqual_rel_abs (Finite (4951760157141521 / 2 ^ 92)) (Finite (6338253001141147 / 2 ^ 99))"
proof (intro conjI impI)
  show "SoftEqual_call binary64_round (SoftEqual_rel_abs rel_in abs_in) a b
      \<longleftrightarrow> double_less (fabs (double_minus binary64_round a b))
            (fmax abs_in (double_times binary64_round rel_in (fmax (fabs a) (fabs b))))"
    by (simp add: SoftEqual_call_def SoftEqual_rel_abs_def)
  show "SoftEqual_default binary64_round
       = SoftEqual_rel_abs (Finite (4951760157141521 / 2 ^ 92)) (Finite (6338253001141147 / 2 ^ 99))"
    by (rule SoftEqual_default_binary64)
next
  assume rounded: "binary64_round (x - y) = Finite d
      \<and> binary64_round (r * max (abs x) (abs y)) = Finite p"
  let ?call = "SoftEqual_call binary64_round (SoftEqual_rel_abs (Finite r) (Finite t))
      (Finite x) (Finite y)"
  let ?scaled = "r * max (abs x) (abs y)"
  from rounded have rounded_d: "binary64_round (x - y) = Finite d"
    and rounded_p: "binary64_round ?scaled = Finite p"
    by simp_all
  have call: "?call \<longleftrightarrow> \<bar>d\<bar> < max t p"
    using rounded_d rounded_p by (rule SoftEqual_call_finite)
  have error_d: "\<bar>d - (x - y)\<bar> \<le> \<bar>x - y\<bar> / 2 ^ 53 + 1 / 2 ^ 1075"
    using rounded_d by (rule binary64_round_error)
  have error_p: "\<bar>p - ?scaled\<bar> \<le> \<bar>?scaled\<bar> / 2 ^ 53 + 1 / 2 ^ 1075"
    using rounded_p by (rule binary64_round_error)
  show "?call \<longleftrightarrow> \<bar>d\<bar> < max t p" by (rule call)
  show "\<bar>d - (x - y)\<bar> \<le> \<bar>x - y\<bar> / 2 ^ 53 + 1 / 2 ^ 1075" by (rule error_d)
  show "\<bar>p - ?scaled\<bar> \<le> \<bar>?scaled\<bar> / 2 ^ 53 + 1 / 2 ^ 1075" by (rule error_p)
  show "?call"
    if "\<bar>x - y\<bar> + (\<bar>x - y\<bar> / 2 ^ 53 + 1 / 2 ^ 1075)
        < max t (?scaled - (\<bar>?scaled\<bar> / 2 ^ 53 + 1 / 2 ^ 1075))"
  proof -
    have "\<bar>d\<bar> \<le> \<bar>x - y\<bar> + (\<bar>x - y\<bar> / 2 ^ 53 + 1 / 2 ^ 1075)"
      using error_d by linarith
    moreover have "max t (?scaled - (\<bar>?scaled\<bar> / 2 ^ 53 + 1 / 2 ^ 1075)) \<le> max t p"
      using error_p by (intro max.mono order_refl) linarith
    ultimately have "\<bar>d\<bar> < max t p" using that by linarith
    then show ?thesis by (simp only: call)
  qed
  show "\<bar>x - y\<bar> - (\<bar>x - y\<bar> / 2 ^ 53 + 1 / 2 ^ 1075)
        < max t (?scaled + (\<bar>?scaled\<bar> / 2 ^ 53 + 1 / 2 ^ 1075))"
    if ?call
  proof -
    from that have less: "\<bar>d\<bar> < max t p" by (simp only: call)
    have "\<bar>x - y\<bar> - (\<bar>x - y\<bar> / 2 ^ 53 + 1 / 2 ^ 1075) \<le> \<bar>d\<bar>"
      using error_d by linarith
    moreover have "max t p \<le> max t (?scaled + (\<bar>?scaled\<bar> / 2 ^ 53 + 1 / 2 ^ 1075))"
      using error_p by (intro max.mono order_refl) linarith
    ultimately show ?thesis using less by linarith
  qed
qed

theorem SoftEqual_call_rounded_formula_witness:
  "binary64_round (2 - (2 - 1 / 2 ^ 40)) = Finite (1 / 2 ^ 40)
   \<and> binary64_round (4951760157141521 / 2 ^ 92 * max (abs 2) (abs (2 - 1 / 2 ^ 40)))
       = Finite (4951760157141521 / 2 ^ 91)
   \<and> SoftEqual_call binary64_round (SoftEqual_default binary64_round)
        (Finite 2) (Finite (2 - 1 / 2 ^ 40))
   \<and> binary64_round (2 - (2 - 1 / 2 ^ 38)) = Finite (1 / 2 ^ 38)
   \<and> binary64_round (4951760157141521 / 2 ^ 92 * max (abs 2) (abs (2 - 1 / 2 ^ 38)))
       = Finite (4951760157141521 / 2 ^ 91)
   \<and> \<not> SoftEqual_call binary64_round (SoftEqual_default binary64_round)
        (Finite 2) (Finite (2 - 1 / 2 ^ 38))"
proof -
  let ?r = "4951760157141521 / 2 ^ 92 :: real"
  let ?t = "6338253001141147 / 2 ^ 99 :: real"
  let ?p = "4951760157141521 / 2 ^ 91 :: real"
  have d40: "binary64_round (2 - (2 - 1 / 2 ^ 40)) = Finite (1 / 2 ^ 40)"
    using binary64_round_eqI [of "1 / 2 ^ 40" "- 40" "- 92" "2 ^ 52"]
    by (simp add: round_half_even_def power_int_minus)
  have d38: "binary64_round (2 - (2 - 1 / 2 ^ 38)) = Finite (1 / 2 ^ 38)"
    using binary64_round_eqI [of "1 / 2 ^ 38" "- 38" "- 90" "2 ^ 52"]
    by (simp add: round_half_even_def power_int_minus)
  have p: "binary64_round (?r * 2) = Finite ?p"
    using binary64_round_eqI [of "?r * 2" "- 39" "- 91" 4951760157141521]
    by (simp add: round_half_even_def power_int_minus)
  have p40: "binary64_round (?r * max (abs 2) (abs (2 - 1 / 2 ^ 40))) = Finite ?p"
    using p by simp
  have p38: "binary64_round (?r * max (abs 2) (abs (2 - 1 / 2 ^ 38))) = Finite ?p"
    using p by simp
  have dflt: "SoftEqual_default binary64_round = SoftEqual_rel_abs (Finite ?r) (Finite ?t)"
    using SoftEqual_call_rounded_formula by blast
  have "SoftEqual_call binary64_round (SoftEqual_rel_abs (Finite ?r) (Finite ?t))
      (Finite 2) (Finite (2 - 1 / 2 ^ 40)) \<longleftrightarrow> \<bar>1 / 2 ^ 40 :: real\<bar> < max ?t ?p"
    using SoftEqual_call_rounded_formula
      [where x = 2 and y = "2 - 1 / 2 ^ 40" and d = "1 / 2 ^ 40" and r = ?r and p = ?p and t = ?t]
      d40 p40
    by blast
  then have yes: "SoftEqual_call binary64_round (SoftEqual_rel_abs (Finite ?r) (Finite ?t))
      (Finite 2) (Finite (2 - 1 / 2 ^ 40))"
    by simp
  have "SoftEqual_call binary64_round (SoftEqual_rel_abs (Finite ?r) (Finite ?t))
      (Finite 2) (Finite (2 - 1 / 2 ^ 38)) \<longleftrightarrow> \<bar>1 / 2 ^ 38 :: real\<bar> < max ?t ?p"
    using SoftEqual_call_rounded_formula
      [where x = 2 and y = "2 - 1 / 2 ^ 38" and d = "1 / 2 ^ 38" and r = ?r and p = ?p and t = ?t]
      d38 p38
    by blast
  then have no: "\<not> SoftEqual_call binary64_round (SoftEqual_rel_abs (Finite ?r) (Finite ?t))
      (Finite 2) (Finite (2 - 1 / 2 ^ 38))"
    by simp
  from d40 p40 yes d38 p38 no show ?thesis
    unfolding dflt by blast
qed

text \<open>
  Claim C5.  For every comparator and every value \<open>x\<close>, the comparison of a NaN with
  \<open>x\<close> is false in either argument order, and so is the comparison of two infinities
  of the same sign.
\<close>

theorem SoftEqual_call_NaN_inf:
  "\<not> SoftEqual_call rnd eq NaN x
   \<and> \<not> SoftEqual_call rnd eq x NaN
   \<and> \<not> SoftEqual_call rnd eq PlusInf PlusInf
   \<and> \<not> SoftEqual_call rnd eq MinusInf MinusInf"
  by (simp add: SoftEqual_call_def double_minus_NaN_right)

text \<open>
  Claim C6.  For a comparator with \<open>rel > 0\<close> and \<open>abs > 0\<close> and finite values \<open>a\<close>
  and \<open>b\<close>, in binary64 arithmetic rounding to nearest, the comparison of \<open>a\<close> with
  \<open>b\<close> is the comparison of \<open>b\<close> with \<open>a\<close>, and the comparison of \<open>a\<close> with itself is
  true.
\<close>

theorem SoftEqual_call_commutative_reflexive:
  assumes "double_less (Finite 0) (SoftEqual_rel eq)"
    and "double_less (Finite 0) (SoftEqual_abs eq)"
  shows "SoftEqual_call binary64_round eq (Finite a) (Finite b)
       = SoftEqual_call binary64_round eq (Finite b) (Finite a)
     \<and> SoftEqual_call binary64_round eq (Finite a) (Finite a)"
proof
  show "SoftEqual_call binary64_round eq (Finite a) (Finite b)
      = SoftEqual_call binary64_round eq (Finite b) (Finite a)"
    by (rule SoftEqual_call_commute) (rule fabs_binary64_round_minus)
  show "SoftEqual_call binary64_round eq (Finite a) (Finite a)"
    using binary64_round_zero assms(2) by (rule SoftEqual_call_reflexive)
qed

theorem SoftEqual_call_commutative_reflexive_witness:
  "double_less (Finite 0) (SoftEqual_rel (SoftEqual_default binary64_round))
   \<and> double_less (Finite 0) (SoftEqual_abs (SoftEqual_default binary64_round))
   \<and> SoftEqual_call binary64_round (SoftEqual_default binary64_round) (Finite 3) (Finite 2)
     = SoftEqual_call binary64_round (SoftEqual_default binary64_round) (Finite 2) (Finite 3)
   \<and> SoftEqual_call binary64_round (SoftEqual_default binary64_round) (Finite 3) (Finite 3)"
  using SoftEqual_call_commutative_reflexive [of "SoftEqual_default binary64_round" 3 2]
  by (simp add: SoftEqual_default_def rel_prec_binary64 abs_thresh_binary64)

section \<open>The converter's walk: one entry per logical volume\<close>

lemma placements_self: "lv \<in> set (placements lv)"
  by (cases lv) simp

lemma placements_daughter:
  "d \<in> set ds \<Longrightarrow> u \<in> set (placements d) \<Longrightarrow> u \<in> set (placements (G4LogicalVolume a ds))"
  by auto

lemma placements_trans:
  "v \<in> set (placements w) \<Longrightarrow> u \<in> set (placements v) \<Longrightarrow> u \<in> set (placements w)"
proof (induction w arbitrary: v)
  case (G4LogicalVolume a ds)
  from G4LogicalVolume.prems(1)
  consider "v = G4LogicalVolume a ds" | d where "d \<in> set ds" "v \<in> set (placements d)"
    by auto
  then show ?case
  proof cases
    case 1
    with G4LogicalVolume.prems(2) show ?thesis by simp
  next
    case 2
    then have "u \<in> set (placements d)"
      using G4LogicalVolume.IH G4LogicalVolume.prems(2) by blast
    with 2(1) show ?thesis by (rule placements_daughter)
  qed
qed

lemma size_placements: "u \<in> set (placements v) \<Longrightarrow> size u \<le> size v"
proof (induction v)
  case (G4LogicalVolume a ds)
  from G4LogicalVolume.prems
  consider "u = G4LogicalVolume a ds" | d where "d \<in> set ds" "u \<in> set (placements d)"
    by auto
  then show ?case
  proof cases
    case 1
    then show ?thesis by simp
  next
    case 2
    then have "size u \<le> size d" using G4LogicalVolume.IH by blast
    also have "size d \<le> size_list size ds"
      using 2(1) by (simp add: size_list_estimation')
    finally show ?thesis by simp
  qed
qed

lemma not_below_daughter:
  assumes "d \<in> set ds" and "u \<in> set (placements d)"
  shows "u \<noteq> G4LogicalVolume a ds"
proof
  assume "u = G4LogicalVolume a ds"
  moreover have "size u \<le> size d" using assms(2) by (rule size_placements)
  moreover have "size d \<le> size_list size ds"
    using assms(1) by (simp add: size_list_estimation')
  ultimately show False by simp
qed

lemma addresses_unfold:
  "addresses (G4LogicalVolume a ds) = insert a (\<Union>d \<in> set ds. addresses d)"
  by (auto simp: addresses_def)

lemma walk_visited:
  fixes state :: "'w::len word Converter_state"
  shows "build_with_daughters failure lv state = Inr state'
      \<Longrightarrow> visited state \<subseteq> visited state' \<and> visited state' \<subseteq> visited state \<union> addresses lv"
    and "build_daughters failure lvs state = Inr state'
      \<Longrightarrow> visited state \<subseteq> visited state'
        \<and> visited state' \<subseteq> visited state \<union> (\<Union>d \<in> set lvs. addresses d)"
proof (induction failure lv state and failure lvs state arbitrary: state' and state'
    rule: build_with_daughters_build_daughters.induct)
  case (1 failure address daughters state)
  show ?case
  proof (cases "map_of (volume_ids state) address")
    case None
    with "1.prems" obtain "failure address = None"
      and run: "build_daughters failure daughters
          \<lparr>volume_ids = (address, next_id state) # volume_ids state,
           next_id = pre_increment (next_id state)\<rparr> = Inr state'"
      by (auto split: option.splits)
    from "1.IH" [OF None this]
    show ?thesis by (auto simp: visited_def addresses_unfold)
  next
    case (Some vid)
    with "1.prems" show ?thesis by simp
  qed
next
  case (2 failure state)
  then show ?case by simp
next
  case (3 failure daughter daughters state)
  from "3.prems" obtain mid where
    first: "build_with_daughters failure daughter state = Inr mid"
    and rest: "build_daughters failure daughters mid = Inr state'"
    by (auto split: sum.splits)
  from "3.IH"(1) [OF first] "3.IH"(2) [OF first rest]
  show ?case by auto
qed


lemma map_of_visited: "map_of (volume_ids state) address = None \<longleftrightarrow> address \<notin> visited state"
  by (simp add: visited_def map_of_eq_None_iff)

lemma address_in_addresses: "lv_address lv \<in> addresses lv"
  using placements_self [of lv] by (auto simp: addresses_def)

lemma addresses_mono: "u \<in> set (placements v) \<Longrightarrow> addresses u \<subseteq> addresses v"
  by (auto simp: addresses_def dest: placements_trans)

lemma closed_exceptD:
  assumes "closed_except base seen opened"
    and "s \<in> set (placements base)"
    and "lv_address s \<in> seen"
    and "lv_address s \<notin> opened"
  shows "addresses s \<subseteq> seen"
  using assms unfolding closed_except_def by blast

lemma walk_closed:
  fixes state :: "'w::len word Converter_state"
  assumes wf: "one_object_per_address base"
  shows "build_with_daughters failure lv state = Inr state'
      \<Longrightarrow> lv \<in> set (placements base)
      \<Longrightarrow> closed_except base (visited state) opened
      \<Longrightarrow> addresses lv \<inter> opened = {}
      \<Longrightarrow> addresses lv \<subseteq> visited state' \<and> closed_except base (visited state') opened"
    and "build_daughters failure lvs state = Inr state'
      \<Longrightarrow> set lvs \<subseteq> set (placements base)
      \<Longrightarrow> closed_except base (visited state) opened
      \<Longrightarrow> (\<forall>d \<in> set lvs. addresses d \<inter> opened = {})
      \<Longrightarrow> (\<forall>d \<in> set lvs. addresses d \<subseteq> visited state')
        \<and> closed_except base (visited state') opened"
proof (induction failure lv state and failure lvs state
    arbitrary: state' opened and state' opened
    rule: build_with_daughters_build_daughters.induct)
  case (1 failure address daughters state)
  let ?lv = "G4LogicalVolume address daughters"
  note in_base = \<open>?lv \<in> set (placements base)\<close>
  note closed = \<open>closed_except base (visited state) opened\<close>
  note apart = \<open>addresses ?lv \<inter> opened = {}\<close>
  have not_opened: "address \<notin> opened"
    using apart address_in_addresses [of ?lv] by auto
  show ?case
  proof (cases "map_of (volume_ids state) address")
    case (Some vid)
    then have seen: "address \<in> visited state"
      using map_of_visited [of state address] by simp
    from Some "1.prems"(1) have "state' = state" by simp
    moreover have "addresses ?lv \<subseteq> visited state"
      using closed in_base seen not_opened by (auto dest: closed_exceptD)
    ultimately show ?thesis using closed by simp
  next
    case None
    let ?entered = "\<lparr>volume_ids = (address, next_id state) # volume_ids state,
           next_id = pre_increment (next_id state)\<rparr>"
    from None "1.prems"(1) obtain ok: "failure address = None"
      and run: "build_daughters failure daughters ?entered = Inr state'"
      by (auto split: option.splits)
    have entered: "visited ?entered = insert address (visited state)"
      by (simp add: visited_def)
    have daughters_in_base: "set daughters \<subseteq> set (placements base)"
    proof
      fix d assume "d \<in> set daughters"
      then have "d \<in> set (placements ?lv)"
        using placements_self [of d] by (rule placements_daughter)
      with in_base show "d \<in> set (placements base)" by (rule placements_trans)
    qed
    have closed_entered: "closed_except base (visited ?entered) (insert address opened)"
      unfolding closed_except_def entered
      using closed by (auto dest: closed_exceptD)
    have daughters_apart: "\<forall>d \<in> set daughters. addresses d \<inter> insert address opened = {}"
    proof
      fix d assume d: "d \<in> set daughters"
      have "addresses d \<subseteq> addresses ?lv"
        using d placements_self [of d] by (intro addresses_mono placements_daughter)
      with apart have "addresses d \<inter> opened = {}" by auto
      moreover have "address \<notin> addresses d"
      proof
        assume "address \<in> addresses d"
        then obtain u where u: "u \<in> set (placements d)" "lv_address u = address"
          by (auto simp: addresses_def)
        from d daughters_in_base have "d \<in> set (placements base)" by auto
        then have "u \<in> set (placements base)" using u(1) by (rule placements_trans)
        with wf in_base u(2) have "u = ?lv"
          unfolding one_object_per_address_def by auto
        with not_below_daughter [OF d u(1), of address] show False by simp
      qed
      ultimately show "addresses d \<inter> insert address opened = {}" by auto
    qed
    from "1.IH" [OF None ok run daughters_in_base closed_entered daughters_apart]
    have below: "\<forall>d \<in> set daughters. addresses d \<subseteq> visited state'"
      and closed': "closed_except base (visited state') (insert address opened)"
      by simp_all
    have "visited ?entered \<subseteq> visited state'"
      using walk_visited(2) [OF run] by simp
    then have seen: "address \<in> visited state'" using entered by auto
    have all_seen: "addresses ?lv \<subseteq> visited state'"
      using below seen by (auto simp: addresses_unfold)
    have "closed_except base (visited state') opened"
      unfolding closed_except_def
    proof (intro ballI impI)
      fix s
      assume s: "s \<in> set (placements base)" "lv_address s \<in> visited state'"
        "lv_address s \<notin> opened"
      show "addresses s \<subseteq> visited state'"
      proof (cases "lv_address s = address")
        case True
        with wf in_base s(1) have "s = ?lv"
          unfolding one_object_per_address_def by auto
        with all_seen show ?thesis by simp
      next
        case False
        with s closed' show ?thesis by (auto dest: closed_exceptD)
      qed
    qed
    with all_seen show ?thesis by simp
  qed
next
  case (2 failure state)
  then show ?case by simp
next
  case (3 failure daughter daughters state)
  from "3.prems"(1) obtain mid where
    first: "build_with_daughters failure daughter state = Inr mid"
    and rest: "build_daughters failure daughters mid = Inr state'"
    by (auto split: sum.splits)
  from "3.prems" have
    d_in: "daughter \<in> set (placements base)" and ds_in: "set daughters \<subseteq> set (placements base)"
    and d_apart: "addresses daughter \<inter> opened = {}"
    and ds_apart: "\<forall>d \<in> set daughters. addresses d \<inter> opened = {}"
    by simp_all
  from "3.IH"(1) [OF first d_in "3.prems"(3) d_apart]
  have d_seen: "addresses daughter \<subseteq> visited mid"
    and closed_mid: "closed_except base (visited mid) opened"
    by simp_all
  from "3.IH"(2) [OF first rest ds_in closed_mid ds_apart]
  have ds_seen: "\<forall>d \<in> set daughters. addresses d \<subseteq> visited state'"
    and closed': "closed_except base (visited state') opened"
    by simp_all
  have "visited mid \<subseteq> visited state'" using walk_visited(2) [OF rest] by simp
  with d_seen ds_seen closed' show ?case by auto
qed

lemma walk_visits_all:
  fixes state' :: "'w::len word Converter_state"
  assumes "one_object_per_address lv"
    and "build_with_daughters failure lv \<lparr>volume_ids = [], next_id = first_id\<rparr> = Inr state'"
  shows "visited state' = addresses lv"
proof -
  let ?init = "\<lparr>volume_ids = [], next_id = first_id\<rparr>"
  have empty: "visited ?init = {}" by (simp add: visited_def)
  have "closed_except lv (visited ?init) {}"
    by (simp add: closed_except_def empty)
  with walk_closed(1) [OF assms(1) assms(2) placements_self, of "{}"]
  have "addresses lv \<subseteq> visited state'" by simp
  moreover have "visited state' \<subseteq> addresses lv"
    using walk_visited(1) [OF assms(2)] empty by simp
  ultimately show ?thesis by auto
qed


lemma walk_returns:
  fixes state :: "'w::len word Converter_state"
  shows "(\<forall>a \<in> addresses lv. failure a = None)
      \<Longrightarrow> \<exists>state'. build_with_daughters failure lv state = Inr state'"
    and "(\<forall>d \<in> set lvs. \<forall>a \<in> addresses d. failure a = None)
      \<Longrightarrow> \<exists>state'. build_daughters failure lvs state = Inr state'"
proof (induction failure lv state and failure lvs state
    rule: build_with_daughters_build_daughters.induct)
  case (1 failure address daughters state)
  then show ?case
    by (cases "map_of (volume_ids state) address") (auto simp: addresses_unfold)
next
  case (2 failure state)
  then show ?case by simp
next
  case (3 failure daughter daughters state)
  from "3.prems" "3.IH"(1) obtain mid where
    first: "build_with_daughters failure daughter state = Inr mid"
    by auto
  from "3.prems" "3.IH"(2) [OF first] obtain state' where
    "build_daughters failure daughters mid = Inr state'"
    by auto
  with first show ?case by simp
qed

text \<open>The walk returns, and \<open>convert\<close> accepts the world, when no volume fails.\<close>

lemma convert_accepts:
  fixes failure :: "Converter_Options \<Rightarrow> pointer \<Rightarrow> 'e option"
  assumes "\<forall>a \<in> reachable_volumes world_in. failure (make_geocel_opts options) a = None"
  shows "\<exists>r. convert
      (Converter_walk failure vg_world :: ('e, G4VPhysicalVolume, 'w::len word) Converter)
      world_in options = Inr r"
proof -
  from assms
  have "\<forall>a \<in> addresses (GetLogicalVolume world_in). failure (make_geocel_opts options) a = None"
    by (simp add: reachable_volumes_def addresses_def)
  from walk_returns(1) [OF this]
  obtain state' :: "'w word Converter_state" where
    "build_with_daughters (failure (make_geocel_opts options)) (GetLogicalVolume world_in)
        \<lparr>volume_ids = [], next_id = OpaqueId 0\<rparr> = Inr state'"
    by blast
  then show ?thesis by (simp add: convert_def Converter_walk_def)
qed

text \<open>
  Claim C1.  For a source world that \<open>convert\<close> accepts, the keys of the returned map
  are exactly the distinct logical volumes reachable from the world: one entry per
  volume however many placements reference it, so the number of entries is the number
  of distinct reachable volumes and at most the number of placements.  The converter is
  the walk modelled above; addresses identify logical volumes.
\<close>

theorem convert_one_entry_per_volume:
  fixes failure :: "Converter_Options \<Rightarrow> pointer \<Rightarrow> 'e option"
  assumes "one_object_per_address (GetLogicalVolume world_in)"
    and "convert (Converter_walk failure vg_world :: ('e, G4VPhysicalVolume, 'w::len word) Converter)
          world_in options = Inr r"
  shows "dom (volumes r) = reachable_volumes world_in
     \<and> card (dom (volumes r)) = card (reachable_volumes world_in)
     \<and> card (dom (volumes r)) \<le> length (placements (GetLogicalVolume world_in))"
proof -
  let ?converter = "Converter_walk failure vg_world :: ('e, G4VPhysicalVolume, 'w word) Converter"
  from assms(2) obtain g where
    g: "?converter (make_geocel_opts options) world_in = Inr g"
    and r: "r = \<lparr>world = result_world g,
        volumes = remap_volumes (result_volumes g) Map.empty\<rparr>"
    by (auto simp: convert_def split: sum.splits)
  from g obtain state' :: "'w word Converter_state" where
    run: "build_with_daughters (failure (make_geocel_opts options)) (GetLogicalVolume world_in)
        \<lparr>volume_ids = [], next_id = OpaqueId 0\<rparr> = Inr state'"
    and entries: "result_volumes g = volume_ids state'"
    by (auto simp: Converter_walk_def split: sum.splits)
  have "dom (volumes r) = fst ` set (result_volumes g)"
    by (simp add: r dom_remap_volumes)
  also have "\<dots> = visited state'" by (simp add: entries visited_def)
  also have "\<dots> = addresses (GetLogicalVolume world_in)"
    using assms(1) run by (rule walk_visits_all)
  finally have keys: "dom (volumes r) = reachable_volumes world_in"
    by (simp add: reachable_volumes_def addresses_def)
  have "card (reachable_volumes world_in) \<le> card (set (placements (GetLogicalVolume world_in)))"
    unfolding reachable_volumes_def by (rule card_image_le) simp
  also have "\<dots> \<le> length (placements (GetLogicalVolume world_in))"
    by (rule card_length)
  finally show ?thesis using keys by simp
qed

theorem convert_one_entry_per_volume_witness:
  "one_object_per_address
     (G4LogicalVolume 1
        [G4LogicalVolume 2 [G4LogicalVolume 3 []], G4LogicalVolume 2 [G4LogicalVolume 3 []],
         G4LogicalVolume 3 []])
   \<and> map_sum id world
       (convert (Converter_walk (\<lambda>opts lv. None) 77 :: (unit, G4VPhysicalVolume, 64 word) Converter)
          (G4VPhysicalVolume (G4LogicalVolume 1
            [G4LogicalVolume 2 [G4LogicalVolume 3 []], G4LogicalVolume 2 [G4LogicalVolume 3 []],
             G4LogicalVolume 3 []])) Options_default) = Inr 77
   \<and> map_sum id (\<lambda>r. dom (volumes r))
       (convert (Converter_walk (\<lambda>opts lv. None) 77 :: (unit, G4VPhysicalVolume, 64 word) Converter)
          (G4VPhysicalVolume (G4LogicalVolume 1
            [G4LogicalVolume 2 [G4LogicalVolume 3 []], G4LogicalVolume 2 [G4LogicalVolume 3 []],
             G4LogicalVolume 3 []])) Options_default) = Inr {1, 2, 3}
   \<and> length (placements (G4LogicalVolume 1
        [G4LogicalVolume 2 [G4LogicalVolume 3 []], G4LogicalVolume 2 [G4LogicalVolume 3 []],
         G4LogicalVolume 3 []])) = 6"
proof -
  let ?lv = "G4LogicalVolume 1
        [G4LogicalVolume 2 [G4LogicalVolume 3 []], G4LogicalVolume 2 [G4LogicalVolume 3 []],
         G4LogicalVolume 3 []]"
  let ?converter = "Converter_walk (\<lambda>opts lv. None) 77 :: (unit, G4VPhysicalVolume, 64 word) Converter"
  let ?r = "\<lparr>world = 77,
      volumes = remap_volumes [(3, OpaqueId 2 :: 64 word OpaqueId), (2, OpaqueId 1), (1, OpaqueId 0)]
        Map.empty\<rparr>"
  have one: "one_object_per_address ?lv"
    by (simp add: one_object_per_address_def)
  have run: "convert ?converter (G4VPhysicalVolume ?lv) Options_default = Inr ?r"
    by (simp add: convert_def Converter_walk_def pre_increment_def)
  have "one_object_per_address (GetLogicalVolume (G4VPhysicalVolume ?lv))"
    using one by simp
  from convert_one_entry_per_volume [OF this run]
  have "dom (volumes ?r) = {1, 2, 3}"
    by (auto simp: reachable_volumes_def)
  then show ?thesis using one run by simp
qed

end
